theory Spec2Isabelle
  imports Main "HOL-Library.Word" "HOL-Library.AList"
begin

unbundle bit_operations_syntax

section \<open>Data model\<close>

text \<open>
  The canister of \<^verbatim>\<open>src/dfinity_js_backend/src/index.ts\<close> keeps three
  identifier-keyed stores of records. Candid \<^verbatim>\<open>text\<close> is \<open>string\<close>, Candid
  \<^verbatim>\<open>nat\<close> is \<open>nat\<close>. The field \<^verbatim>\<open>id\<close> occurs in three records and clashes with
  the identity function of HOL, so every field carries its record's initial as a prefix.
\<close>

record Interaction =
  i_id :: string
  i_date :: string
  i_interaction_type :: string
  i_description :: string
  i_status :: string
  i_comments :: string

record Purchase =
  p_id :: string
  p_date :: string
  p_product :: string
  p_quantity :: nat
  p_price :: nat

record Customer =
  c_id :: string
  c_name :: string
  c_company :: string
  c_email :: string
  c_phone :: string
  c_interactions :: "Interaction list"
  c_purchases :: "Purchase list"

record CustomerPayload =
  cp_name :: string
  cp_company :: string
  cp_email :: string
  cp_phone :: string

record InteractionPayload =
  ip_date :: string
  ip_interaction_type :: string
  ip_description :: string
  ip_status :: string
  ip_comments :: string

record PurchasePayload =
  pp_date :: string
  pp_product :: string
  pp_quantity :: nat
  pp_price :: nat

datatype Message =
  NotFound string
| InvalidPayload string
| InternalError string

text \<open>\<^verbatim>\<open>Result(T, Message)\<close>: \<^verbatim>\<open>Err\<close> is the left injection, \<^verbatim>\<open>Ok\<close> the right one.\<close>

type_synonym 'a Result = "Message + 'a"

abbreviation Err :: "Message \<Rightarrow> 'a Result" where
  "Err \<equiv> Inl"

abbreviation Ok :: "'a \<Rightarrow> 'a Result" where
  "Ok \<equiv> Inr"

section \<open>The entity store\<close>

text \<open>
  Modelled from the spec: \<^verbatim>\<open>StableBTreeMap\<close> belongs to the azle library, which is
  not part of the repository. Section 4.3 of the specification gives its contract:
  \<^verbatim>\<open>get\<close>, \<^verbatim>\<open>insert\<close> (an upsert that returns the previous value), \<^verbatim>\<open>remove\<close>
  (returns the removed value), \<^verbatim>\<open>values\<close> and \<^verbatim>\<open>containsKey\<close>. The store is an
  association list. \<^verbatim>\<open>values\<close> lists the records in the order of the list; the order
  of the underlying tree is not fixed by the specification and no statement below depends
  on it.
\<close>

type_synonym 'v store = "(string \<times> 'v) list"

definition store_get :: "string \<Rightarrow> 'v store \<Rightarrow> 'v option" where
  "store_get k st = map_of st k"

definition store_insert :: "string \<Rightarrow> 'v \<Rightarrow> 'v store \<Rightarrow> 'v option \<times> 'v store" where
  "store_insert k v st = (map_of st k, AList.update k v st)"

definition store_remove :: "string \<Rightarrow> 'v store \<Rightarrow> 'v option \<times> 'v store" where
  "store_remove k st = (map_of st k, AList.delete k st)"

definition store_values :: "'v store \<Rightarrow> 'v list" where
  "store_values st = map snd st"

definition store_containsKey :: "string \<Rightarrow> 'v store \<Rightarrow> bool" where
  "store_containsKey k st = (map_of st k \<noteq> None)"

record state =
  customerStorage :: "Customer store"
  interactionStorage :: "Interaction store"
  purchaseStorage :: "Purchase store"

definition initState :: state where
  "initState = \<lparr>customerStorage = [], interactionStorage = [], purchaseStorage = []\<rparr>"

section \<open>Validation\<close>

text \<open>
  \<^verbatim>\<open>isValidUUID\<close> tests the regular expression
  \<^verbatim>\<open>/^[a-f\d]{8}-[a-f\d]{4}-[a-f\d]{4}-[a-f\d]{4}-[a-f\d]{12}$/i\<close>. The class
  \<^verbatim>\<open>[a-f\d]\<close> under the flag \<^verbatim>\<open>i\<close> is a decimal digit or a letter a to f of
  either case. Every piece of the expression has a fixed length, so matching is a single
  pass from the left: \<open>hexRun n\<close> consumes \<^verbatim>\<open>[a-f\d]{n}\<close>, \<open>dash\<close> consumes the
  hyphen, and the anchor \<^verbatim>\<open>$\<close> asks for nothing to be left.
\<close>

definition isHexDigit :: "char \<Rightarrow> bool" where
  "isHexDigit c = (c \<in> set ''0123456789abcdefABCDEF'')"

fun hexRun :: "nat \<Rightarrow> string \<Rightarrow> string option" where
  "hexRun 0 s = Some s"
| "hexRun (Suc n) [] = None"
| "hexRun (Suc n) (c # cs) = (if isHexDigit c then hexRun n cs else None)"

fun dash :: "string \<Rightarrow> string option" where
  "dash [] = None"
| "dash (c # cs) = (if c = CHR ''-'' then Some cs else None)"

definition isValidUUID :: "string \<Rightarrow> bool" where
  "isValidUUID uuid =
     (Option.bind (Option.bind (Option.bind (Option.bind (Option.bind (Option.bind
        (Option.bind (Option.bind (hexRun 8 uuid) dash) (hexRun 4)) dash) (hexRun 4)) dash)
        (hexRun 4)) dash) (hexRun 12) = Some [])"

text \<open>
  \<^verbatim>\<open>isValidPayload\<close> is \<^verbatim>\<open>typeof payload === "object" && Object.keys(payload).length > 0\<close>.
  A payload reaches the canister decoded from its Candid record type, so it is an object
  and its keys are the fields of that type; the functions \<open>keys_*\<close> list them.
\<close>

definition keys_CustomerPayload :: "CustomerPayload \<Rightarrow> string list" where
  "keys_CustomerPayload p = [''name'', ''company'', ''email'', ''phone'']"

definition keys_InteractionPayload :: "InteractionPayload \<Rightarrow> string list" where
  "keys_InteractionPayload p =
     [''date'', ''interaction_type'', ''description'', ''status'', ''comments'']"

definition keys_PurchasePayload :: "PurchasePayload \<Rightarrow> string list" where
  "keys_PurchasePayload p = [''date'', ''product'', ''quantity'', ''price'']"

definition isValidPayload :: "string list \<Rightarrow> bool" where
  "isValidPayload ks = (length ks > 0)"

section \<open>Identifier generation\<close>

text \<open>
  Bytes are \<open>8 word\<close>. \<open>toString16\<close> is \<^verbatim>\<open>Number.prototype.toString(16)\<close> on a
  natural number, \<open>padStart\<close> and \<open>substr\<close> are the string methods of the same name
  (both shorten silently when the string is too short), and \<open>hexString\<close> is
  \<^verbatim>\<open>Array.from(bytes).map(b => b.toString(16).padStart(2, "0")).join("")\<close>.
\<close>

type_synonym byte = "8 word"

definition hexDigit :: "nat \<Rightarrow> char" where
  "hexDigit d = ''0123456789abcdef'' ! d"

fun toString16 :: "nat \<Rightarrow> string" where
  "toString16 n = (if n < 16 then [hexDigit n] else toString16 (n div 16) @ [hexDigit (n mod 16)])"

declare toString16.simps [simp del]

definition padStart :: "nat \<Rightarrow> char \<Rightarrow> string \<Rightarrow> string" where
  "padStart n c s = replicate (n - length s) c @ s"

definition substr :: "nat \<Rightarrow> nat \<Rightarrow> string \<Rightarrow> string" where
  "substr start len s = take len (drop start s)"

definition byteHex :: "byte \<Rightarrow> string" where
  "byteHex b = padStart 2 (CHR ''0'') (toString16 (unat b))"

definition hexString :: "byte list \<Rightarrow> string" where
  "hexString bs = concat (map byteHex bs)"

text \<open>
  \<^verbatim>\<open>hashBytes[16]\<close>: an index past the end reads \<^verbatim>\<open>undefined\<close>, which the
  bitwise operators of JavaScript take as 0.
\<close>

definition byteAt :: "byte list \<Rightarrow> nat \<Rightarrow> byte" where
  "byteAt bs i = (if i < length bs then bs ! i else 0)"

text \<open>
  \<^verbatim>\<open>generateUUID\<close> reads the clock and 32 random bytes; both are arguments here. The
  digest function of the js-sha256 library is the parameter \<open>sha256\<close>, from the hashed
  text to the bytes of the digest.
\<close>

definition generateUUID :: "(string \<Rightarrow> byte list) \<Rightarrow> string \<Rightarrow> byte list \<Rightarrow> string" where
  "generateUUID sha256 timestamp randomBytes =
     (let randomBytesString = hexString randomBytes;
          hashBytes = sha256 (timestamp @ randomBytesString);
          hashBytesString = hexString hashBytes
      in substr 0 8 hashBytesString @ ''-'' @ substr 8 4 hashBytesString @ ''-4''
         @ substr 13 3 hashBytesString @ ''-''
         @ padStart 2 (CHR ''0'') (toString16 (unat ((byteAt hashBytes 16 AND 0x3f) OR 0x80)))
         @ substr 17 2 hashBytesString @ ''-'' @ substr 20 12 hashBytesString)"

section \<open>Service operations\<close>

text \<open>
  A query takes the state and returns its result. An update returns its result and the
  new state. The operations that create a record take the clock reading and the random
  bytes that their call of \<^verbatim>\<open>generateUUID\<close> consumes.
\<close>

definition getCustomers :: "state \<Rightarrow> Customer list" where
  "getCustomers s = store_values (customerStorage s)"

definition getCustomer :: "state \<Rightarrow> string \<Rightarrow> Customer Result" where
  "getCustomer s ident =
     (if \<not> isValidUUID ident then Err (InvalidPayload ''Invalid UUID'')
      else case store_get ident (customerStorage s) of
             None \<Rightarrow> Err (NotFound (''Customer with id='' @ ident @ '' not found''))
           | Some customer \<Rightarrow> Ok customer)"

definition addCustomer ::
  "(string \<Rightarrow> byte list) \<Rightarrow> string \<Rightarrow> byte list \<Rightarrow> CustomerPayload \<Rightarrow> state
     \<Rightarrow> Customer Result \<times> state" where
  "addCustomer sha256 timestamp randomBytes payload s =
     (if \<not> isValidPayload (keys_CustomerPayload payload)
      then (Err (InvalidPayload ''Invalid payload''), s)
      else
        let customer = \<lparr>c_id = generateUUID sha256 timestamp randomBytes,
                        c_name = cp_name payload, c_company = cp_company payload,
                        c_email = cp_email payload, c_phone = cp_phone payload,
                        c_interactions = [], c_purchases = []\<rparr>
        in (Ok customer,
            s\<lparr>customerStorage :=
                snd (store_insert (c_id customer) customer (customerStorage s))\<rparr>))"

definition updateCustomer :: "Customer \<Rightarrow> state \<Rightarrow> Customer Result \<times> state" where
  "updateCustomer payload s =
     (if \<not> store_containsKey (c_id payload) (customerStorage s)
      then (Err (NotFound (''Customer with id='' @ c_id payload @ '' not found'')), s)
      else (Ok payload,
            s\<lparr>customerStorage :=
                snd (store_insert (c_id payload) payload (customerStorage s))\<rparr>))"

text \<open>
  The three delete operations call \<^verbatim>\<open>remove\<close> before they look at what it
  returned, so the state after the call is the one \<^verbatim>\<open>remove\<close> left, on both branches.
\<close>

definition deleteCustomer :: "string \<Rightarrow> state \<Rightarrow> string Result \<times> state" where
  "deleteCustomer ident s =
     (if \<not> isValidUUID ident then (Err (InvalidPayload ''Invalid UUID''), s)
      else
        let removed = store_remove ident (customerStorage s);
            s' = s\<lparr>customerStorage := snd removed\<rparr>
        in case fst removed of
             None \<Rightarrow> (Err (NotFound (''Customer with id='' @ ident @ '' not found'')), s')
           | Some deleted \<Rightarrow> (Ok (c_id deleted), s'))"

definition addInteraction ::
  "(string \<Rightarrow> byte list) \<Rightarrow> string \<Rightarrow> byte list \<Rightarrow> string \<Rightarrow> InteractionPayload \<Rightarrow> state
     \<Rightarrow> string Result \<times> state" where
  "addInteraction sha256 timestamp randomBytes customerId payload s =
     (if \<not> isValidUUID customerId then (Err (InvalidPayload ''Invalid customer UUID''), s)
      else if \<not> isValidPayload (keys_InteractionPayload payload)
      then (Err (InvalidPayload ''Invalid payload''), s)
      else
        let interaction = \<lparr>i_id = generateUUID sha256 timestamp randomBytes,
                           i_date = ip_date payload,
                           i_interaction_type = ip_interaction_type payload,
                           i_description = ip_description payload,
                           i_status = ip_status payload,
                           i_comments = ip_comments payload\<rparr>
        in case store_get customerId (customerStorage s) of
             None \<Rightarrow> (Err (NotFound (''Customer with id='' @ customerId @ '' not found'')), s)
           | Some stored \<Rightarrow>
               let customer = stored\<lparr>c_interactions := c_interactions stored @ [interaction]\<rparr>
               in (Ok (i_id interaction),
                   s\<lparr>customerStorage :=
                       snd (store_insert (c_id customer) customer (customerStorage s)),
                     interactionStorage :=
                       snd (store_insert (i_id interaction) interaction
                              (interactionStorage s))\<rparr>))"

definition getCustomerInteractions :: "state \<Rightarrow> string \<Rightarrow> Interaction list" where
  "getCustomerInteractions s customerId =
     (if \<not> isValidUUID customerId then []
      else case store_get customerId (customerStorage s) of
             None \<Rightarrow> []
           | Some customer \<Rightarrow> c_interactions customer)"

definition addPurchase ::
  "(string \<Rightarrow> byte list) \<Rightarrow> string \<Rightarrow> byte list \<Rightarrow> string \<Rightarrow> PurchasePayload \<Rightarrow> state
     \<Rightarrow> string Result \<times> state" where
  "addPurchase sha256 timestamp randomBytes customerId payload s =
     (if \<not> isValidUUID customerId then (Err (InvalidPayload ''Invalid customer UUID''), s)
      else if \<not> isValidPayload (keys_PurchasePayload payload)
      then (Err (InvalidPayload ''Invalid payload''), s)
      else
        let purchase = \<lparr>p_id = generateUUID sha256 timestamp randomBytes,
                        p_date = pp_date payload, p_product = pp_product payload,
                        p_quantity = pp_quantity payload, p_price = pp_price payload\<rparr>
        in case store_get customerId (customerStorage s) of
             None \<Rightarrow> (Err (NotFound (''Customer with id='' @ customerId @ '' not found'')), s)
           | Some stored \<Rightarrow>
               let customer = stored\<lparr>c_purchases := c_purchases stored @ [purchase]\<rparr>
               in (Ok (p_id purchase),
                   s\<lparr>customerStorage :=
                       snd (store_insert (c_id customer) customer (customerStorage s)),
                     purchaseStorage :=
                       snd (store_insert (p_id purchase) purchase (purchaseStorage s))\<rparr>))"

definition getCustomerPurchases :: "state \<Rightarrow> string \<Rightarrow> Purchase list" where
  "getCustomerPurchases s customerId =
     (if \<not> isValidUUID customerId then []
      else case store_get customerId (customerStorage s) of
             None \<Rightarrow> []
           | Some customer \<Rightarrow> c_purchases customer)"

definition getPurchase :: "state \<Rightarrow> string \<Rightarrow> Purchase Result" where
  "getPurchase s ident =
     (if \<not> isValidUUID ident then Err (InvalidPayload ''Invalid UUID'')
      else case store_get ident (purchaseStorage s) of
             None \<Rightarrow> Err (NotFound (''Purchase with id='' @ ident @ '' not found''))
           | Some purchase \<Rightarrow> Ok purchase)"

definition getInteraction :: "state \<Rightarrow> string \<Rightarrow> Interaction Result" where
  "getInteraction s ident =
     (if \<not> isValidUUID ident then Err (InvalidPayload ''Invalid UUID'')
      else case store_get ident (interactionStorage s) of
             None \<Rightarrow> Err (NotFound (''Interaction with id='' @ ident @ '' not found''))
           | Some interaction \<Rightarrow> Ok interaction)"

definition updateInteraction :: "Interaction \<Rightarrow> state \<Rightarrow> Interaction Result \<times> state" where
  "updateInteraction payload s =
     (if \<not> store_containsKey (i_id payload) (interactionStorage s)
      then (Err (NotFound (''Interaction with id='' @ i_id payload @ '' not found'')), s)
      else (Ok payload,
            s\<lparr>interactionStorage :=
                snd (store_insert (i_id payload) payload (interactionStorage s))\<rparr>))"

definition deleteInteraction :: "string \<Rightarrow> state \<Rightarrow> string Result \<times> state" where
  "deleteInteraction ident s =
     (if \<not> isValidUUID ident then (Err (InvalidPayload ''Invalid UUID''), s)
      else
        let removed = store_remove ident (interactionStorage s);
            s' = s\<lparr>interactionStorage := snd removed\<rparr>
        in case fst removed of
             None \<Rightarrow> (Err (NotFound (''Interaction with id='' @ ident @ '' not found'')), s')
           | Some deleted \<Rightarrow> (Ok (i_id deleted), s'))"

definition updatePurchase :: "Purchase \<Rightarrow> state \<Rightarrow> Purchase Result \<times> state" where
  "updatePurchase payload s =
     (if \<not> store_containsKey (p_id payload) (purchaseStorage s)
      then (Err (NotFound (''Purchase with id='' @ p_id payload @ '' not found'')), s)
      else (Ok payload,
            s\<lparr>purchaseStorage :=
                snd (store_insert (p_id payload) payload (purchaseStorage s))\<rparr>))"

definition deletePurchase :: "string \<Rightarrow> state \<Rightarrow> string Result \<times> state" where
  "deletePurchase ident s =
     (if \<not> isValidUUID ident then (Err (InvalidPayload ''Invalid UUID''), s)
      else
        let removed = store_remove ident (purchaseStorage s);
            s' = s\<lparr>purchaseStorage := snd removed\<rparr>
        in case fst removed of
             None \<Rightarrow> (Err (NotFound (''Purchase with id='' @ ident @ '' not found'')), s')
           | Some deleted \<Rightarrow> (Ok (p_id deleted), s'))"

text \<open>
  \<^verbatim>\<open>String.prototype.toLowerCase\<close> belongs to the JavaScript runtime, not to the
  repository: it follows the case mappings of Unicode, on every script. It is the
  parameter \<open>toLowerCase\<close> of the two filters, from a text to its lower-case form.
\<close>

definition filterByStatus ::
  "(string \<Rightarrow> string) \<Rightarrow> state \<Rightarrow> string \<Rightarrow> Interaction list" where
  "filterByStatus toLowerCase s status =
     filter (\<lambda>interaction. toLowerCase (i_status interaction) = toLowerCase status)
       (store_values (interactionStorage s))"

definition getPurchasesByDate ::
  "(string \<Rightarrow> string) \<Rightarrow> state \<Rightarrow> string \<Rightarrow> Purchase list" where
  "getPurchasesByDate toLowerCase s date =
     filter (\<lambda>purchase. toLowerCase (p_date purchase) = toLowerCase date)
       (store_values (purchaseStorage s))"

section \<open>Reachable states\<close>

text \<open>
  The canister starts with three empty stores, and its state changes only through the
  nine update methods. \<open>call\<close> names one invocation of an update method with its
  arguments, \<open>exec\<close> gives the state it leaves.
\<close>

datatype call =
  AddCustomer string "byte list" CustomerPayload
| UpdateCustomer Customer
| DeleteCustomer string
| AddInteraction string "byte list" string InteractionPayload
| AddPurchase string "byte list" string PurchasePayload
| UpdateInteraction Interaction
| DeleteInteraction string
| UpdatePurchase Purchase
| DeletePurchase string

fun exec :: "(string \<Rightarrow> byte list) \<Rightarrow> call \<Rightarrow> state \<Rightarrow> state" where
  "exec sha256 (AddCustomer ts rb p) s = snd (addCustomer sha256 ts rb p s)"
| "exec sha256 (UpdateCustomer c) s = snd (updateCustomer c s)"
| "exec sha256 (DeleteCustomer k) s = snd (deleteCustomer k s)"
| "exec sha256 (AddInteraction ts rb k p) s = snd (addInteraction sha256 ts rb k p s)"
| "exec sha256 (AddPurchase ts rb k p) s = snd (addPurchase sha256 ts rb k p s)"
| "exec sha256 (UpdateInteraction i) s = snd (updateInteraction i s)"
| "exec sha256 (DeleteInteraction k) s = snd (deleteInteraction k s)"
| "exec sha256 (UpdatePurchase p) s = snd (updatePurchase p s)"
| "exec sha256 (DeletePurchase k) s = snd (deletePurchase k s)"

inductive reachable :: "(string \<Rightarrow> byte list) \<Rightarrow> state \<Rightarrow> bool"
  for sha256 :: "string \<Rightarrow> byte list" where
  reachable_init: "reachable sha256 initState"
| reachable_step: "reachable sha256 s \<Longrightarrow> reachable sha256 (exec sha256 c s)"

text \<open>The digest of SHA-256 has 32 bytes, whatever the text.\<close>

definition digest32 :: "(string \<Rightarrow> byte list) \<Rightarrow> bool" where
  "digest32 sha256 = (\<forall>m. length (sha256 m) = 32)"

text \<open>
  \<open>ids_match\<close>: every key of a store is the \<^verbatim>\<open>id\<close> of the record under it.
  \<open>keys_valid\<close>: every key of the customer store has the identifier format.
\<close>

definition ids_match :: "state \<Rightarrow> bool" where
  "ids_match s =
     (list_all (\<lambda>(k, v). c_id v = k) (customerStorage s) \<and>
      list_all (\<lambda>(k, v). i_id v = k) (interactionStorage s) \<and>
      list_all (\<lambda>(k, v). p_id v = k) (purchaseStorage s))"

definition keys_valid :: "state \<Rightarrow> bool" where
  "keys_valid s = list_all (\<lambda>(k, v). isValidUUID k) (customerStorage s)"

section \<open>Vocabulary of the specification\<close>

text \<open>
  The specification writes the layout of an identifier as a template. In a template,
  \<open>h\<close> stands for a hexadecimal digit of either case, \<open>x\<close> for a lower-case hexadecimal
  digit, \<open>y\<close> for one of 8, 9, a, b, and every other character for itself.
\<close>

definition isLowerHex :: "char \<Rightarrow> bool" where
  "isLowerHex c = (c \<in> set ''0123456789abcdef'')"

definition fitsChar :: "char \<Rightarrow> char \<Rightarrow> bool" where
  "fitsChar p c =
     (if p = CHR ''h'' then isHexDigit c
      else if p = CHR ''x'' then isLowerHex c
      else if p = CHR ''y'' then c \<in> set ''89ab''
      else c = p)"

definition fits :: "string \<Rightarrow> string \<Rightarrow> bool" where
  "fits template s = list_all2 fitsChar template s"

text \<open>
  Two strings are equal up to ASCII case when they have the same length and, position by
  position, the same character or the two cases of one letter.
\<close>

definition caseTable :: "(char \<times> char) list" where
  "caseTable = zip ''ABCDEFGHIJKLMNOPQRSTUVWXYZ'' ''abcdefghijklmnopqrstuvwxyz''"

definition sameLetter :: "char \<Rightarrow> char \<Rightarrow> bool" where
  "sameLetter c d = (c = d \<or> (c, d) \<in> set caseTable \<or> (d, c) \<in> set caseTable)"

definition ascii_case_eq :: "string \<Rightarrow> string \<Rightarrow> bool" where
  "ascii_case_eq a b = list_all2 sameLetter a b"

text \<open>
  \<open>asciiLower\<close> puts the ASCII letters of a string in lower case and leaves every other
  character as it is. A lower-case conversion folds ASCII case when it gives one result
  for any two strings that are equal up to ASCII case; the conversion of the JavaScript
  runtime does, since the lower-case mapping of Unicode sends A to Z to a to z and none
  of its rules tells the two cases of an ASCII letter apart.
\<close>

definition asciiLowerChar :: "char \<Rightarrow> char" where
  "asciiLowerChar c = (case map_of caseTable c of None \<Rightarrow> c | Some d \<Rightarrow> d)"

definition asciiLower :: "string \<Rightarrow> string" where
  "asciiLower s = map asciiLowerChar s"

definition foldsAsciiCase :: "(string \<Rightarrow> string) \<Rightarrow> bool" where
  "foldsAsciiCase toLowerCase = (\<forall>a b. ascii_case_eq a b \<longrightarrow> toLowerCase a = toLowerCase b)"

text \<open>The keys of each store are pairwise distinct.\<close>

definition keys_distinct :: "state \<Rightarrow> bool" where
  "keys_distinct s =
     (distinct (map fst (customerStorage s)) \<and>
      distinct (map fst (interactionStorage s)) \<and>
      distinct (map fst (purchaseStorage s)))"

section \<open>Example data\<close>

text \<open>
  A digest function with 32 bytes of output that depends on the characters of its input,
  two clock readings, random bytes and payloads, for the concrete instances below.
\<close>

definition exampleDigest :: "string \<Rightarrow> byte list" where
  "exampleDigest m = map (\<lambda>i. of_nat (sum_list (map of_char m) + i)) [0..<32]"

definition exampleBytes :: "byte list" where
  "exampleBytes = replicate 32 7"

definition exampleTime :: string where
  "exampleTime = ''2024-01-01T00:00:00.000Z''"

definition laterTime :: string where
  "laterTime = ''2024-01-02T10:30:00.000Z''"

definition acme :: CustomerPayload where
  "acme = \<lparr>cp_name = ''Acme'', cp_company = ''Acme Co'', cp_email = ''a@acme.com'',
            cp_phone = ''555-0100''\<rparr>"

definition firstCall :: InteractionPayload where
  "firstCall = \<lparr>ip_date = ''2024-01-02'', ip_interaction_type = ''call'',
                 ip_description = ''intro'', ip_status = ''Open'', ip_comments = ''none''\<rparr>"

definition firstOrder :: PurchasePayload where
  "firstOrder = \<lparr>pp_date = ''3 Jan 2024'', pp_product = ''anvil'', pp_quantity = 2,
                  pp_price = 100\<rparr>"

definition acmeId :: string where
  "acmeId = ''c4c5c6c7-c8c9-4acb-94cc-cecfd0d1d2d3''"

definition callId :: string where
  "callId = ''c9cacbcc-cdce-4fd0-991d-d3d4d5d6d7d8''"

definition acmeCustomer :: Customer where
  "acmeCustomer = \<lparr>c_id = acmeId, c_name = ''Acme'', c_company = ''Acme Co'',
                    c_email = ''a@acme.com'', c_phone = ''555-0100'',
                    c_interactions = [], c_purchases = []\<rparr>"

definition callRecord :: Interaction where
  "callRecord = \<lparr>i_id = callId, i_date = ''2024-01-02'', i_interaction_type = ''call'',
                  i_description = ''intro'', i_status = ''Open'', i_comments = ''none''\<rparr>"

definition orderRecord :: Purchase where
  "orderRecord = \<lparr>p_id = callId, p_date = ''3 Jan 2024'', p_product = ''anvil'',
                   p_quantity = 2, p_price = 100\<rparr>"

definition acmeRenamed :: Customer where
  "acmeRenamed = acmeCustomer\<lparr>c_name := ''Acme Ltd''\<rparr>"

definition stranger :: Customer where
  "stranger = acmeCustomer\<lparr>c_id := callId\<rparr>"

definition callClosed :: Interaction where
  "callClosed = callRecord\<lparr>i_status := ''closed''\<rparr>"

text \<open>
  \<open>oneCustomer\<close> is the state after \<^verbatim>\<open>addCustomer(acme)\<close> on the empty stores,
  \<open>oneInteraction\<close> the state after \<^verbatim>\<open>addInteraction(acmeId, firstCall)\<close> on that, and
  \<open>onePurchase\<close> the state after \<^verbatim>\<open>addPurchase(acmeId, firstOrder)\<close> on
  \<open>oneCustomer\<close>.
\<close>

definition oneCustomer :: state where
  "oneCustomer = exec exampleDigest (AddCustomer exampleTime exampleBytes acme) initState"

definition oneInteraction :: state where
  "oneInteraction =
     exec exampleDigest (AddInteraction laterTime exampleBytes acmeId firstCall) oneCustomer"

definition onePurchase :: state where
  "onePurchase =
     exec exampleDigest (AddPurchase laterTime exampleBytes acmeId firstOrder) oneCustomer"

text \<open>
  A lower-case conversion for the concrete instances, on text in UTF-8: it lowers the
  ASCII letters and the letters of the Latin-1 supplement, U+00C0 to U+00DE without the
  sign U+00D7, whose encoding is the byte C3 and a byte from 80 to 9E; the lower-case
  letter has the second byte greater by 20 (all hexadecimal). \<open>ecoleUpper\<close> and
  \<open>ecoleLower\<close> are the French word for school in upper and in lower case, with
  U+00C9 and U+00E9 as first letter.
\<close>

definition isUpperTail :: "char \<Rightarrow> bool" where
  "isUpperTail d =
     (0x80 \<le> (of_char d :: nat) \<and> (of_char d :: nat) \<le> 0x9E \<and> (of_char d :: nat) \<noteq> 0x97)"

fun utf8Lower :: "string \<Rightarrow> string" where
  "utf8Lower [] = []"
| "utf8Lower [c] = [asciiLowerChar c]"
| "utf8Lower (c # d # s) =
     (if c = CHR 0xC3 \<and> isUpperTail d
      then c # char_of (of_char d + (0x20 :: nat)) # utf8Lower s
      else asciiLowerChar c # utf8Lower (d # s))"

definition ecoleUpper :: string where
  "ecoleUpper = CHR 0xC3 # CHR 0x89 # ''COLE''"

definition ecoleLower :: string where
  "ecoleLower = CHR 0xC3 # CHR 0xA9 # ''cole''"

definition schoolVisit :: InteractionPayload where
  "schoolVisit = \<lparr>ip_date = ''2024-01-04'', ip_interaction_type = ''visit'',
                   ip_description = ''tour'', ip_status = ecoleUpper, ip_comments = ''none''\<rparr>"

definition schoolRecord :: Interaction where
  "schoolRecord = \<lparr>i_id = callId, i_date = ''2024-01-04'', i_interaction_type = ''visit'',
                    i_description = ''tour'', i_status = ecoleUpper, i_comments = ''none''\<rparr>"

definition schoolState :: state where
  "schoolState =
     exec exampleDigest (AddInteraction laterTime exampleBytes acmeId schoolVisit) oneCustomer"

section \<open>Identifiers: generator and validator\<close>

lemma below16:
  "(d::nat) < 16 \<Longrightarrow> d = 0 \<or> d = 1 \<or> d = 2 \<or> d = 3 \<or> d = 4 \<or> d = 5 \<or> d = 6 \<or> d = 7
     \<or> d = 8 \<or> d = 9 \<or> d = 10 \<or> d = 11 \<or> d = 12 \<or> d = 13 \<or> d = 14 \<or> d = 15"
  by arith

lemma hexDigit_lower: "d < 16 \<Longrightarrow> isLowerHex (hexDigit d)"
  using below16 [of d] by (auto simp: hexDigit_def isLowerHex_def)

lemma isLowerHex_isHexDigit: "isLowerHex c \<Longrightarrow> isHexDigit c"
  by (auto simp: isLowerHex_def isHexDigit_def)

lemma toString16_byte:
  "n < 256 \<Longrightarrow> padStart 2 (CHR ''0'') (toString16 n) = [hexDigit (n div 16), hexDigit (n mod 16)]"
proof (cases "n < 16")
  case True
  then show ?thesis
    by (simp add: toString16.simps [of n] padStart_def hexDigit_def)
next
  case False
  assume "n < 256"
  then have "n div 16 < 16" by simp
  with False show ?thesis
    by (simp add: toString16.simps [of n] toString16.simps [of "n div 16"] padStart_def)
qed

lemma byteHex_eq: "byteHex b = [hexDigit (unat b div 16), hexDigit (unat b mod 16)]"
proof -
  have "unat b < 256" using unsigned_less [of b] by simp
  then show ?thesis by (simp add: byteHex_def toString16_byte)
qed

lemma length_hexString: "length (hexString bs) = 2 * length bs"
  by (induction bs) (simp_all add: hexString_def byteHex_eq)

lemma hexString_lower: "list_all isLowerHex (hexString bs)"
proof (induction bs)
  case Nil
  then show ?case by (simp add: hexString_def)
next
  case (Cons b bs)
  have "unat b < 256" using unsigned_less [of b] by simp
  then have "unat b div 16 < 16" by simp
  then show ?case using Cons
    by (simp add: hexString_def byteHex_eq hexDigit_lower)
qed

lemma variant_nat: "((n AND 63) OR 128) div 16 \<in> {8, 9, 10, 11::nat}"
proof -
  have m: "(63::nat) = mask 6" by (simp add: mask_eq_exp_minus_1)
  have "n AND 63 = n mod 64" unfolding m by (simp add: take_bit_eq_mod flip: take_bit_eq_mask)
  moreover have "n mod 64 div 16 = 0 \<or> n mod 64 div 16 = 1 \<or> n mod 64 div 16 = 2 \<or> n mod 64 div 16 = 3" by arith
  moreover have "drop_bit 4 ((n mod 64) OR 128) = drop_bit 4 (n mod 64) OR drop_bit 4 (128::nat)"
    by (rule drop_bit_or)
  then have "((n mod 64) OR 128) div 16 = (n mod 64 div 16) OR 8"
    by (simp add: drop_bit_eq_div) 
  ultimately show ?thesis by auto
qed

lemma variant_hex:
  fixes b :: byte
  shows "\<exists>y z. padStart 2 (CHR ''0'') (toString16 (unat ((b AND 0x3f) OR 0x80))) = [y, z]
           \<and> y \<in> set ''89ab'' \<and> isLowerHex z"
proof -
  let ?v = "unat ((b AND 0x3f) OR 0x80)"
  have lt: "?v < 256" using unsigned_less [of "(b AND 0x3f) OR 0x80"] by simp
  have "?v div 16 \<in> {8, 9, 10, 11}"
    using variant_nat [of "unat b"] by (simp add: unsigned_or_eq unsigned_and_eq)
  then have "hexDigit (?v div 16) \<in> set ''89ab''"
    by (auto simp: hexDigit_def)
  moreover have "isLowerHex (hexDigit (?v mod 16))"
    by (rule hexDigit_lower) simp
  ultimately show ?thesis
    unfolding toString16_byte [OF lt] by simp
qed

lemma fits_Nil [simp]: "fits [] s \<longleftrightarrow> s = []"
  by (simp add: fits_def)

lemma fits_append:
  "length t = length s \<Longrightarrow> fits (t @ t') (s @ s') \<longleftrightarrow> fits t s \<and> fits t' s'"
  by (simp add: fits_def list_all2_append)

lemma fits_lower:
  "list_all isLowerHex s \<Longrightarrow> fits (replicate (length s) (CHR ''x'')) s"
  by (induction s) (simp_all add: fits_def fitsChar_def)

lemma substr_lower:
  "list_all isLowerHex s \<Longrightarrow> list_all isLowerHex (substr i n s)"
  unfolding substr_def list_all_iff
  by (meson in_set_dropD in_set_takeD)

lemma length_substr: "i + n \<le> length s \<Longrightarrow> length (substr i n s) = n"
  by (simp add: substr_def)

lemma fits_substr:
  "list_all isLowerHex s \<Longrightarrow> i + n \<le> length s \<Longrightarrow> fits (replicate n (CHR ''x'')) (substr i n s)"
  using fits_lower [OF substr_lower, of s i n] by (simp add: length_substr)

lemma fits_hexRun:
  "fits (replicate n (CHR ''h'') @ t) s \<longleftrightarrow> (\<exists>r. hexRun n s = Some r \<and> fits t r)"
proof (induction n arbitrary: s)
  case 0
  then show ?case by simp
next
  case (Suc n)
  show ?case
  proof (cases s)
    case Nil
    then show ?thesis by (simp add: fits_def)
  next
    case (Cons c cs)
    have "fits (replicate (Suc n) (CHR ''h'') @ t) (c # cs)
            \<longleftrightarrow> isHexDigit c \<and> fits (replicate n (CHR ''h'') @ t) cs"
      by (simp add: fits_def fitsChar_def)
    with Suc [of cs] Cons show ?thesis by simp
  qed
qed

lemma fits_dash:
  "fits (CHR ''-'' # t) s \<longleftrightarrow> (\<exists>r. dash s = Some r \<and> fits t r)"
  by (cases s) (auto simp: fits_def fitsChar_def)

lemma isValidUUID_iff:
  "isValidUUID u \<longleftrightarrow> fits ''hhhhhhhh-hhhh-hhhh-hhhh-hhhhhhhhhhhh'' u"
proof -
  have t: "''hhhhhhhh-hhhh-hhhh-hhhh-hhhhhhhhhhhh'' =
      replicate 8 (CHR ''h'') @ CHR ''-'' # replicate 4 (CHR ''h'') @ CHR ''-'' #
      replicate 4 (CHR ''h'') @ CHR ''-'' # replicate 4 (CHR ''h'') @ CHR ''-'' #
      replicate 12 (CHR ''h'') @ []"
    by (simp add: numeral_eq_Suc)
  show ?thesis
    unfolding t isValidUUID_def fits_hexRun fits_dash
    by (auto simp: bind_eq_Some_conv)
qed

lemma fits_Cons [simp]: "fits (p # t) (c # s) \<longleftrightarrow> fitsChar p c \<and> fits t s"
  by (simp add: fits_def)

lemma fitsChar_relax:
  "fitsChar p c \<Longrightarrow> fitsChar (if p \<in> set ''xy4'' then CHR ''h'' else p) c"
  by (auto simp: fitsChar_def isLowerHex_def isHexDigit_def split: if_splits)

lemma fits_weaken:
  assumes "fits ''xxxxxxxx-xxxx-4xxx-yxxx-xxxxxxxxxxxx'' u"
  shows "fits ''hhhhhhhh-hhhh-hhhh-hhhh-hhhhhhhhhhhh'' u"
proof -
  have t: "''hhhhhhhh-hhhh-hhhh-hhhh-hhhhhhhhhhhh'' =
      map (\<lambda>p. if p \<in> set ''xy4'' then CHR ''h'' else p) ''xxxxxxxx-xxxx-4xxx-yxxx-xxxxxxxxxxxx''"
    by simp
  show ?thesis
    unfolding t fits_def list_all2_map1
    by (rule list_all2_mono [OF assms [unfolded fits_def]]) (rule fitsChar_relax)
qed

lemma generateUUID_fits:
  assumes "length (sha256 (timestamp @ hexString randomBytes)) = 32"
  shows "fits ''xxxxxxxx-xxxx-4xxx-yxxx-xxxxxxxxxxxx'' (generateUUID sha256 timestamp randomBytes)"
proof -
  let ?hb = "sha256 (timestamp @ hexString randomBytes)"
  let ?hs = "hexString ?hb"
  let ?v = "padStart 2 (CHR ''0'') (toString16 (unat ((byteAt ?hb 16 AND 0x3f) OR 0x80)))"
  have len: "length ?hs = 64" using assms by (simp add: length_hexString)
  have low: "list_all isLowerHex ?hs" by (rule hexString_lower)
  obtain y z where v: "?v = [y, z]" "y \<in> set ''89ab''" "isLowerHex z"
    using variant_hex [of "byteAt ?hb 16"] by blast
  have g: "generateUUID sha256 timestamp randomBytes =
      substr 0 8 ?hs @ ''-'' @ substr 8 4 ?hs @ ''-4'' @ substr 13 3 ?hs @ ''-'' @ ?v
        @ substr 17 2 ?hs @ ''-'' @ substr 20 12 ?hs"
    by (simp add: generateUUID_def Let_def)
  have t: "''xxxxxxxx-xxxx-4xxx-yxxx-xxxxxxxxxxxx'' =
      replicate 8 (CHR ''x'') @ ''-'' @ replicate 4 (CHR ''x'') @ ''-4'' @ replicate 3 (CHR ''x'')
        @ ''-'' @ ''yx'' @ replicate 2 (CHR ''x'') @ ''-'' @ replicate 12 (CHR ''x'')"
    by (simp add: numeral_eq_Suc)
  have c: "fitsChar (CHR ''-'') (CHR ''-'')" "fitsChar (CHR ''4'') (CHR ''4'')"
    "fitsChar (CHR ''y'') y" "fitsChar (CHR ''x'') z"
    using v by (simp_all add: fitsChar_def)
  show ?thesis
    unfolding g t v using len low c
    by (simp add: fits_append length_substr fits_substr)
qed

lemma generateUUID_valid:
  "length (sha256 (timestamp @ hexString randomBytes)) = 32
     \<Longrightarrow> isValidUUID (generateUUID sha256 timestamp randomBytes)"
  by (simp add: isValidUUID_iff fits_weaken generateUUID_fits)

lemma digest32_example: "digest32 exampleDigest"
  by (simp add: digest32_def exampleDigest_def)

lemma example_uuid: "generateUUID exampleDigest exampleTime exampleBytes = acmeId"
  unfolding acmeId_def by code_simp

lemma later_uuid: "generateUUID exampleDigest laterTime exampleBytes = callId"
  unfolding callId_def by code_simp

text \<open>
  C9. For every clock reading and every choice of random bytes, given the 32 bytes of the
  digest, \<open>generateUUID\<close> returns 36 characters in the layout
  \<^verbatim>\<open>xxxxxxxx-xxxx-4xxx-yxxx-xxxxxxxxxxxx\<close>: lower-case hexadecimal digits in groups of
  8, 4, 4, 4 and 12, the third group starting with 4 and the fourth with one of 8, 9, a, b;
  \<open>isValidUUID\<close> accepts the result. \<open>isValidUUID\<close> accepts exactly the strings of
  the layout 8-4-4-4-12 of hexadecimal digits of either case.
\<close>

theorem generateUUID_layout:
  "(length (sha256 (timestamp @ hexString randomBytes)) = 32 \<longrightarrow>
      fits ''xxxxxxxx-xxxx-4xxx-yxxx-xxxxxxxxxxxx'' (generateUUID sha256 timestamp randomBytes)
      \<and> length (generateUUID sha256 timestamp randomBytes) = 36
      \<and> isValidUUID (generateUUID sha256 timestamp randomBytes))
   \<and> (isValidUUID u \<longleftrightarrow> fits ''hhhhhhhh-hhhh-hhhh-hhhh-hhhhhhhhhhhh'' u)"
proof (intro conjI impI)
  assume h: "length (sha256 (timestamp @ hexString randomBytes)) = 32"
  show f: "fits ''xxxxxxxx-xxxx-4xxx-yxxx-xxxxxxxxxxxx'' (generateUUID sha256 timestamp randomBytes)"
    using h by (rule generateUUID_fits)
  from list_all2_lengthD [OF f [unfolded fits_def]]
  show "length (generateUUID sha256 timestamp randomBytes) = 36" by simp
  show "isValidUUID (generateUUID sha256 timestamp randomBytes)"
    using h by (rule generateUUID_valid)
next
  show "isValidUUID u \<longleftrightarrow> fits ''hhhhhhhh-hhhh-hhhh-hhhh-hhhhhhhhhhhh'' u"
    by (rule isValidUUID_iff)
qed

theorem generateUUID_layout_witness:
  "length (exampleDigest (exampleTime @ hexString exampleBytes)) = 32
   \<and> generateUUID exampleDigest exampleTime exampleBytes = ''c4c5c6c7-c8c9-4acb-94cc-cecfd0d1d2d3''
   \<and> fits ''xxxxxxxx-xxxx-4xxx-yxxx-xxxxxxxxxxxx'' (generateUUID exampleDigest exampleTime exampleBytes)
   \<and> isValidUUID (generateUUID exampleDigest exampleTime exampleBytes)
   \<and> isValidUUID ''C4C5C6C7-c8c9-4acb-94CC-CECFD0D1D2D3''
   \<and> \<not> isValidUUID ''c4c5c6c7-c8c9-4acb-94cc-cecfd0d1d2d''
   \<and> \<not> fits ''hhhhhhhh-hhhh-hhhh-hhhh-hhhhhhhhhhhh'' ''c4c5c6c7-c8c9-4acb-94cc-cecfd0d1d2d''"
  using generateUUID_layout [of exampleDigest exampleTime exampleBytes "''C4C5C6C7-c8c9-4acb-94CC-CECFD0D1D2D3''"]
    generateUUID_layout [of exampleDigest exampleTime exampleBytes "''c4c5c6c7-c8c9-4acb-94cc-cecfd0d1d2d''"]
  by (simp add: exampleDigest_def example_uuid acmeId_def fits_def fitsChar_def isHexDigit_def)

section \<open>The store behaves as a finite map\<close>

lemma get_insert_same: "store_get k (snd (store_insert k v st)) = Some v"
  by (simp add: store_get_def store_insert_def update_conv')

lemma get_insert_other:
  "k' \<noteq> k \<Longrightarrow> store_get k' (snd (store_insert k v st)) = store_get k' st"
  by (simp add: store_get_def store_insert_def update_conv')

lemma get_remove_same: "store_get k (snd (store_remove k st)) = None"
  by (simp add: store_get_def store_remove_def delete_conv')

lemma get_remove_other:
  "k' \<noteq> k \<Longrightarrow> store_get k' (snd (store_remove k st)) = store_get k' st"
  by (simp add: store_get_def store_remove_def)

lemma remove_absent: "store_get k st = None \<Longrightarrow> snd (store_remove k st) = st"
  by (simp add: store_get_def store_remove_def map_of_eq_None_iff)

lemma fst_remove: "fst (store_remove k st) = store_get k st"
  by (simp add: store_get_def store_remove_def)

lemma containsKey_get: "store_containsKey k st \<longleftrightarrow> store_get k st \<noteq> None"
  by (simp add: store_get_def store_containsKey_def)

lemma get_entry: "store_get k st = Some v \<Longrightarrow> (k, v) \<in> set st"
  by (simp add: store_get_def map_of_SomeD)

lemma update_entries:
  "e \<in> set (AList.update k v al) \<Longrightarrow> e = (k, v) \<or> e \<in> set al"
  by (induction al) (auto split: if_splits)

lemma list_all_insert:
  "list_all P st \<Longrightarrow> P (k, v) \<Longrightarrow> list_all P (snd (store_insert k v st))"
  by (auto simp: list_all_iff store_insert_def dest: update_entries)

lemma list_all_remove:
  "list_all P st \<Longrightarrow> list_all P (snd (store_remove k st))"
  by (simp add: list_all_iff store_remove_def AList.delete_eq)

lemma distinct_insert:
  "distinct (map fst st) \<Longrightarrow> distinct (map fst (snd (store_insert k v st)))"
  by (simp add: store_insert_def distinct_update)

lemma distinct_remove:
  "distinct (map fst st) \<Longrightarrow> distinct (map fst (snd (store_remove k st)))"
  by (simp add: store_remove_def distinct_delete)

lemma values_ran:
  "distinct (map fst st) \<Longrightarrow> set (store_values st) = {v. \<exists>k. store_get k st = Some v}"
  by (simp add: store_values_def store_get_def ran_distinct [symmetric] ran_def)

section \<open>Invariants of the reachable states\<close>

lemma isValidPayload_keys [simp]:
  "isValidPayload (keys_CustomerPayload cp)"
  "isValidPayload (keys_InteractionPayload ip)"
  "isValidPayload (keys_PurchasePayload pp)"
  by (simp_all add: isValidPayload_def keys_CustomerPayload_def keys_InteractionPayload_def
      keys_PurchasePayload_def)

lemmas op_defs = addCustomer_def updateCustomer_def deleteCustomer_def addInteraction_def
  addPurchase_def updateInteraction_def deleteInteraction_def updatePurchase_def
  deletePurchase_def

lemma exec_ids_match: "ids_match s \<Longrightarrow> ids_match (exec sha256 c s)"
  unfolding ids_match_def
  by (cases c)
    (simp_all add: op_defs Let_def list_all_insert list_all_remove split: option.splits)

lemma exec_keys_distinct: "keys_distinct s \<Longrightarrow> keys_distinct (exec sha256 c s)"
  unfolding keys_distinct_def
  by (cases c)
    (simp_all add: op_defs Let_def distinct_insert distinct_remove split: option.splits)


lemma exec_keys_valid:
  assumes "digest32 sha256" "ids_match s" "keys_valid s"
  shows "keys_valid (exec sha256 c s)"
proof -
  have gen: "isValidUUID (generateUUID sha256 ts rb)" for ts rb
    using assms(1) by (simp add: digest32_def generateUUID_valid)
  have present: "isValidUUID k" if "store_containsKey k (customerStorage s)" for k
  proof -
    from that obtain v where "store_get k (customerStorage s) = Some v"
      by (auto simp: containsKey_get)
    then have "(k, v) \<in> set (customerStorage s)" by (rule get_entry)
    with assms(3) show ?thesis by (auto simp: keys_valid_def list_all_iff)
  qed
  have stored: "c_id v = k" if "store_get k (customerStorage s) = Some v" for k v
    using get_entry [OF that] assms(2) by (auto simp: ids_match_def list_all_iff)
  show ?thesis
    using assms(3) unfolding keys_valid_def
    by (cases c)
      (simp_all add: op_defs Let_def gen present stored list_all_insert list_all_remove
        split: option.splits)
qed

lemma reachable_ids_match: "reachable sha256 s \<Longrightarrow> ids_match s"
proof (induction rule: reachable.induct)
  case reachable_init
  show ?case by (simp add: ids_match_def initState_def)
next
  case (reachable_step s c)
  then show ?case by (simp add: exec_ids_match)
qed

lemma reachable_keys_distinct: "reachable sha256 s \<Longrightarrow> keys_distinct s"
proof (induction rule: reachable.induct)
  case reachable_init
  show ?case by (simp add: keys_distinct_def initState_def)
next
  case (reachable_step s c)
  then show ?case by (simp add: exec_keys_distinct)
qed

lemma reachable_keys_valid: 
  assumes "digest32 sha256"
  shows "reachable sha256 s \<Longrightarrow> keys_valid s"
proof (induction rule: reachable.induct)
  case reachable_init
  show ?case by (simp add: keys_valid_def initState_def)
next
  case (reachable_step s c)
  then show ?case using assms by (simp add: exec_keys_valid reachable_ids_match)
qed

lemma reachable_stored_id:
  "reachable sha256 s \<Longrightarrow> store_get k (customerStorage s) = Some v \<Longrightarrow> c_id v = k"
  using reachable_ids_match [of sha256 s] get_entry [of k "customerStorage s" v]
  by (auto simp: ids_match_def list_all_iff)

lemma reachable_key_valid:
  "digest32 sha256 \<Longrightarrow> reachable sha256 s \<Longrightarrow> store_get k (customerStorage s) = Some v
     \<Longrightarrow> isValidUUID k"
  using reachable_keys_valid [of sha256 s] get_entry [of k "customerStorage s" v]
  by (auto simp: keys_valid_def list_all_iff)

section \<open>The example states\<close>

lemma acmeId_valid: "isValidUUID acmeId"
  using generateUUID_valid [of exampleDigest exampleTime exampleBytes]
  by (simp add: example_uuid exampleDigest_def)

lemma callId_valid: "isValidUUID callId"
  using generateUUID_valid [of exampleDigest laterTime exampleBytes]
  by (simp add: later_uuid exampleDigest_def)

lemma acmeId_neq_callId: "acmeId \<noteq> callId"
  by (simp add: acmeId_def callId_def)

lemma oneCustomer_eq:
  "oneCustomer =
     \<lparr>customerStorage = [(acmeId, acmeCustomer)], interactionStorage = [],
      purchaseStorage = []\<rparr>"
  by (simp add: oneCustomer_def addCustomer_def Let_def example_uuid acme_def acmeCustomer_def
      initState_def store_insert_def)

lemma oneInteraction_eq:
  "oneInteraction =
     \<lparr>customerStorage = [(acmeId, acmeCustomer\<lparr>c_interactions := [callRecord]\<rparr>)],
      interactionStorage = [(callId, callRecord)], purchaseStorage = []\<rparr>"
  by (simp add: oneInteraction_def oneCustomer_eq addInteraction_def Let_def later_uuid acmeId_valid
      firstCall_def callRecord_def acmeCustomer_def store_insert_def store_get_def)

lemma onePurchase_eq:
  "onePurchase =
     \<lparr>customerStorage = [(acmeId, acmeCustomer\<lparr>c_purchases := [orderRecord]\<rparr>)],
      interactionStorage = [], purchaseStorage = [(callId, orderRecord)]\<rparr>"
  by (simp add: onePurchase_def oneCustomer_eq addPurchase_def Let_def later_uuid acmeId_valid
      firstOrder_def orderRecord_def acmeCustomer_def store_insert_def store_get_def)

lemma reachable_oneCustomer: "reachable exampleDigest oneCustomer"
  unfolding oneCustomer_def by (intro reachable_step reachable_init)

lemma reachable_oneInteraction: "reachable exampleDigest oneInteraction"
  unfolding oneInteraction_def by (intro reachable_step reachable_oneCustomer)

lemma reachable_onePurchase: "reachable exampleDigest onePurchase"
  unfolding onePurchase_def by (intro reachable_step reachable_oneCustomer)

section \<open>Customers\<close>

text \<open>
  C1. For every valid payload, given the 32 bytes of the digest, \<open>addCustomer\<close> succeeds
  with a customer that carries the fields of the payload, an identifier of the identifier
  format and empty lists of interactions and purchases; the customer is stored under its
  identifier.
\<close>

theorem addCustomer_creates:
  assumes "isValidPayload (keys_CustomerPayload payload)"
    and "length (sha256 (timestamp @ hexString randomBytes)) = 32"
  shows "\<exists>customer s'.
           addCustomer sha256 timestamp randomBytes payload s = (Ok customer, s')
           \<and> isValidUUID (c_id customer)
           \<and> c_interactions customer = [] \<and> c_purchases customer = []
           \<and> c_name customer = cp_name payload \<and> c_company customer = cp_company payload
           \<and> c_email customer = cp_email payload \<and> c_phone customer = cp_phone payload
           \<and> store_get (c_id customer) (customerStorage s') = Some customer
           \<and> getCustomer s' (c_id customer) = Ok customer"
  using assms
  by (simp add: addCustomer_def getCustomer_def Let_def get_insert_same generateUUID_valid)

theorem addCustomer_creates_witness:
  "isValidPayload (keys_CustomerPayload acme)
   \<and> length (exampleDigest (exampleTime @ hexString exampleBytes)) = 32
   \<and> addCustomer exampleDigest exampleTime exampleBytes acme initState
       = (Ok acmeCustomer, oneCustomer)
   \<and> (\<exists>customer s'.
         addCustomer exampleDigest exampleTime exampleBytes acme initState = (Ok customer, s')
         \<and> isValidUUID (c_id customer)
         \<and> c_interactions customer = [] \<and> c_purchases customer = []
         \<and> c_name customer = cp_name acme \<and> c_company customer = cp_company acme
         \<and> c_email customer = cp_email acme \<and> c_phone customer = cp_phone acme
         \<and> store_get (c_id customer) (customerStorage s') = Some customer
         \<and> getCustomer s' (c_id customer) = Ok customer)"
proof -
  have p: "isValidPayload (keys_CustomerPayload acme)" by simp
  have d: "length (exampleDigest (exampleTime @ hexString exampleBytes)) = 32"
    by (simp add: exampleDigest_def)
  have e: "addCustomer exampleDigest exampleTime exampleBytes acme initState
       = (Ok acmeCustomer, oneCustomer)"
    by (simp add: oneCustomer_eq addCustomer_def Let_def example_uuid acme_def acmeCustomer_def
      initState_def store_insert_def)
  from p d e
    addCustomer_creates [of acme exampleDigest exampleTime exampleBytes initState]
  show ?thesis by blast
qed

text \<open>
  C2, as stated, fails: for an identifier that is absent and not of the identifier format,
  \<open>getCustomer\<close> returns \<open>InvalidPayload\<close>, not \<open>NotFound\<close>.
\<close>

theorem getCustomer_malformed_counterexample:
  "store_get ''abc'' (customerStorage initState) = None
   \<and> getCustomer initState ''abc'' = Err (InvalidPayload ''Invalid UUID'')
   \<and> getCustomer initState ''abc'' \<noteq> Err (NotFound ''Customer with id=abc not found'')"
  by (simp add: initState_def store_get_def getCustomer_def isValidUUID_def numeral_eq_Suc
      isHexDigit_def)

text \<open>
  C2, amended. For every identifier that is absent from the store in question:
  if it has the identifier format, \<open>getCustomer\<close>, \<open>getInteraction\<close> and \<open>getPurchase\<close>
  return \<open>NotFound\<close>; if it has not, they return \<open>InvalidPayload\<close>; the two queries
  that list by customer return the empty list in both cases. Every one of them returns a
  value on every input.
\<close>

theorem get_absent:
  "(store_get ident (customerStorage s) = None \<longrightarrow>
      getCustomer s ident =
        (if isValidUUID ident
         then Err (NotFound (''Customer with id='' @ ident @ '' not found''))
         else Err (InvalidPayload ''Invalid UUID''))
      \<and> getCustomerInteractions s ident = []
      \<and> getCustomerPurchases s ident = [])
   \<and> (store_get ident (interactionStorage s) = None \<longrightarrow>
      getInteraction s ident =
        (if isValidUUID ident
         then Err (NotFound (''Interaction with id='' @ ident @ '' not found''))
         else Err (InvalidPayload ''Invalid UUID'')))
   \<and> (store_get ident (purchaseStorage s) = None \<longrightarrow>
      getPurchase s ident =
        (if isValidUUID ident
         then Err (NotFound (''Purchase with id='' @ ident @ '' not found''))
         else Err (InvalidPayload ''Invalid UUID'')))"
  by (simp add: getCustomer_def getInteraction_def getPurchase_def
      getCustomerInteractions_def getCustomerPurchases_def)

theorem get_absent_witness:
  "store_get callId (customerStorage oneCustomer) = None
   \<and> store_get callId (interactionStorage oneCustomer) = None
   \<and> store_get callId (purchaseStorage oneCustomer) = None
   \<and> isValidUUID callId
   \<and> getCustomer oneCustomer callId
       = Err (NotFound ''Customer with id=c9cacbcc-cdce-4fd0-991d-d3d4d5d6d7d8 not found'')
   \<and> getInteraction oneCustomer callId
       = Err (NotFound ''Interaction with id=c9cacbcc-cdce-4fd0-991d-d3d4d5d6d7d8 not found'')
   \<and> getPurchase oneCustomer callId
       = Err (NotFound ''Purchase with id=c9cacbcc-cdce-4fd0-991d-d3d4d5d6d7d8 not found'')
   \<and> getCustomerInteractions oneCustomer callId = []
   \<and> getCustomerPurchases oneCustomer callId = []
   \<and> store_get ''abc'' (customerStorage oneCustomer) = None
   \<and> store_get ''abc'' (interactionStorage oneCustomer) = None
   \<and> store_get ''abc'' (purchaseStorage oneCustomer) = None
   \<and> \<not> isValidUUID ''abc''
   \<and> getCustomer oneCustomer ''abc'' = Err (InvalidPayload ''Invalid UUID'')
   \<and> getInteraction oneCustomer ''abc'' = Err (InvalidPayload ''Invalid UUID'')
   \<and> getPurchase oneCustomer ''abc'' = Err (InvalidPayload ''Invalid UUID'')
   \<and> getCustomerInteractions oneCustomer ''abc'' = []
   \<and> getCustomerPurchases oneCustomer ''abc'' = []"
proof -
  have a: "store_get callId (customerStorage oneCustomer) = None"
    "store_get callId (interactionStorage oneCustomer) = None"
    "store_get callId (purchaseStorage oneCustomer) = None"
    using acmeId_neq_callId by (auto simp: oneCustomer_eq store_get_def)
  have b: "store_get ''abc'' (customerStorage oneCustomer) = None"
    "store_get ''abc'' (interactionStorage oneCustomer) = None"
    "store_get ''abc'' (purchaseStorage oneCustomer) = None"
    by (simp_all add: oneCustomer_eq store_get_def acmeId_def)
  have c: "\<not> isValidUUID ''abc''"
    by (simp add: isValidUUID_def numeral_eq_Suc isHexDigit_def)
  from a b c callId_valid get_absent [of callId oneCustomer] get_absent [of "''abc''" oneCustomer]
  show ?thesis
    by (simp add: callId_def)
qed

text \<open>
  C3. In every reachable state, for every customer record \<open>C\<close>: if \<open>c_id C\<close> is a key of
  the customer store, \<open>updateCustomer C\<close> succeeds, stores \<open>C\<close> itself under that key,
  leaves every other entry and the other two stores as they were, and \<open>getCustomer\<close>
  then returns \<open>C\<close>; if \<open>c_id C\<close> is not a key, \<open>updateCustomer C\<close> returns
  \<open>NotFound\<close> and the state is unchanged.
\<close>

theorem updateCustomer_replaces:
  assumes "digest32 sha256" and "reachable sha256 s"
  shows "(store_containsKey (c_id C) (customerStorage s) \<longrightarrow>
            (\<exists>s'. updateCustomer C s = (Ok C, s')
               \<and> store_get (c_id C) (customerStorage s') = Some C
               \<and> getCustomer s' (c_id C) = Ok C
               \<and> (\<forall>k. k \<noteq> c_id C \<longrightarrow>
                     store_get k (customerStorage s') = store_get k (customerStorage s))
               \<and> interactionStorage s' = interactionStorage s
               \<and> purchaseStorage s' = purchaseStorage s))
       \<and> (\<not> store_containsKey (c_id C) (customerStorage s) \<longrightarrow>
            updateCustomer C s
              = (Err (NotFound (''Customer with id='' @ c_id C @ '' not found'')), s))"
proof (intro conjI impI)
  assume present: "store_containsKey (c_id C) (customerStorage s)"
  then obtain v where "store_get (c_id C) (customerStorage s) = Some v"
    by (auto simp: containsKey_get)
  with assms have valid: "isValidUUID (c_id C)"
    by (rule reachable_key_valid)
  let ?s' = "s\<lparr>customerStorage := snd (store_insert (c_id C) C (customerStorage s))\<rparr>"
  have "updateCustomer C s = (Ok C, ?s')"
    using present by (simp add: updateCustomer_def)
  moreover have "store_get (c_id C) (customerStorage ?s') = Some C"
    by (simp add: get_insert_same)
  moreover have "getCustomer ?s' (c_id C) = Ok C"
    using valid by (simp add: getCustomer_def get_insert_same)
  moreover have "\<forall>k. k \<noteq> c_id C \<longrightarrow>
      store_get k (customerStorage ?s') = store_get k (customerStorage s)"
    by (simp add: get_insert_other)
  ultimately show "\<exists>s'. updateCustomer C s = (Ok C, s')
               \<and> store_get (c_id C) (customerStorage s') = Some C
               \<and> getCustomer s' (c_id C) = Ok C
               \<and> (\<forall>k. k \<noteq> c_id C \<longrightarrow>
                     store_get k (customerStorage s') = store_get k (customerStorage s))
               \<and> interactionStorage s' = interactionStorage s
               \<and> purchaseStorage s' = purchaseStorage s"
    by simp
next
  assume "\<not> store_containsKey (c_id C) (customerStorage s)"
  then show "updateCustomer C s
      = (Err (NotFound (''Customer with id='' @ c_id C @ '' not found'')), s)"
    by (simp add: updateCustomer_def)
qed

theorem updateCustomer_replaces_witness:
  "digest32 exampleDigest \<and> reachable exampleDigest oneCustomer
   \<and> store_containsKey (c_id acmeRenamed) (customerStorage oneCustomer)
   \<and> (\<exists>s'. updateCustomer acmeRenamed oneCustomer = (Ok acmeRenamed, s')
          \<and> store_get (c_id acmeRenamed) (customerStorage s') = Some acmeRenamed
          \<and> getCustomer s' (c_id acmeRenamed) = Ok acmeRenamed)
   \<and> \<not> store_containsKey (c_id stranger) (customerStorage oneCustomer)
   \<and> updateCustomer stranger oneCustomer
       = (Err (NotFound (''Customer with id='' @ c_id stranger @ '' not found'')), oneCustomer)"
proof -
  have a: "store_containsKey (c_id acmeRenamed) (customerStorage oneCustomer)"
    by (simp add: oneCustomer_eq store_containsKey_def acmeRenamed_def acmeCustomer_def)
  have b: "\<not> store_containsKey (c_id stranger) (customerStorage oneCustomer)"
    using acmeId_neq_callId
    by (auto simp: oneCustomer_eq store_containsKey_def stranger_def acmeCustomer_def)
  from a updateCustomer_replaces [OF digest32_example reachable_oneCustomer, of acmeRenamed]
  have 1: "\<exists>s'. updateCustomer acmeRenamed oneCustomer = (Ok acmeRenamed, s')
          \<and> store_get (c_id acmeRenamed) (customerStorage s') = Some acmeRenamed
          \<and> getCustomer s' (c_id acmeRenamed) = Ok acmeRenamed"
    by blast
  from b updateCustomer_replaces [OF digest32_example reachable_oneCustomer, of stranger]
  have 2: "updateCustomer stranger oneCustomer
       = (Err (NotFound (''Customer with id='' @ c_id stranger @ '' not found'')), oneCustomer)"
    by blast
  from digest32_example reachable_oneCustomer a b 1 2 show ?thesis by blast
qed

text \<open>
  C4. In every reachable state, for every identifier of the identifier format that is a
  key of the customer store, \<open>deleteCustomer\<close> succeeds and returns that identifier;
  afterwards \<open>getCustomer\<close> returns \<open>NotFound\<close> for it, and a second
  \<open>deleteCustomer\<close> returns \<open>NotFound\<close> and leaves the state as it was.
\<close>

theorem deleteCustomer_twice:
  assumes "reachable sha256 s" and "isValidUUID ident"
    and "store_containsKey ident (customerStorage s)"
  shows "\<exists>s'. deleteCustomer ident s = (Ok ident, s')
           \<and> store_get ident (customerStorage s') = None
           \<and> getCustomer s' ident
               = Err (NotFound (''Customer with id='' @ ident @ '' not found''))
           \<and> deleteCustomer ident s'
               = (Err (NotFound (''Customer with id='' @ ident @ '' not found'')), s')"
proof -
  from assms(3) obtain v where v: "store_get ident (customerStorage s) = Some v"
    by (auto simp: containsKey_get)
  with assms(1) have idv: "c_id v = ident" by (rule reachable_stored_id)
  let ?s' = "s\<lparr>customerStorage := snd (store_remove ident (customerStorage s))\<rparr>"
  have gone: "store_get ident (customerStorage ?s') = None"
    by (simp add: get_remove_same)
  have "deleteCustomer ident s = (Ok ident, ?s')"
    using assms(2) v idv by (simp add: deleteCustomer_def Let_def fst_remove)
  moreover have "getCustomer ?s' ident
      = Err (NotFound (''Customer with id='' @ ident @ '' not found''))"
    using assms(2) gone by (simp add: getCustomer_def)
  moreover have "deleteCustomer ident ?s'
      = (Err (NotFound (''Customer with id='' @ ident @ '' not found'')), ?s')"
    using assms(2) gone remove_absent [OF gone]
    by (simp add: deleteCustomer_def Let_def fst_remove)
  ultimately show ?thesis using gone by blast
qed

theorem deleteCustomer_twice_witness:
  "reachable exampleDigest oneCustomer \<and> isValidUUID acmeId
   \<and> store_containsKey acmeId (customerStorage oneCustomer)
   \<and> deleteCustomer acmeId oneCustomer = (Ok acmeId, initState)
   \<and> (\<exists>s'. deleteCustomer acmeId oneCustomer = (Ok acmeId, s')
          \<and> store_get acmeId (customerStorage s') = None
          \<and> getCustomer s' acmeId
              = Err (NotFound (''Customer with id='' @ acmeId @ '' not found''))
          \<and> deleteCustomer acmeId s'
              = (Err (NotFound (''Customer with id='' @ acmeId @ '' not found'')), s'))"
proof -
  have a: "store_containsKey acmeId (customerStorage oneCustomer)"
    by (simp add: oneCustomer_eq store_containsKey_def)
  have b: "deleteCustomer acmeId oneCustomer = (Ok acmeId, initState)"
    by (simp add: deleteCustomer_def Let_def acmeId_valid oneCustomer_eq store_remove_def
        AList.delete_eq acmeCustomer_def initState_def)
  from reachable_oneCustomer acmeId_valid a b
    deleteCustomer_twice [OF reachable_oneCustomer acmeId_valid a]
  show ?thesis by blast
qed

text \<open>
  C5. In every reachable state, for every customer identifier of the identifier format
  that is a key of the customer store and every valid interaction payload, given the 32
  bytes of the digest: \<open>addInteraction\<close> succeeds with a new identifier; the interaction
  made of that identifier and the fields of the payload is the last element of what
  \<open>getCustomerInteractions\<close> then lists for the customer, and \<open>getInteraction\<close>
  returns the same interaction for the new identifier.
\<close>

theorem addInteraction_recorded:
  assumes "reachable sha256 s" and "isValidUUID customerId"
    and "store_containsKey customerId (customerStorage s)"
    and "isValidPayload (keys_InteractionPayload payload)"
    and "length (sha256 (timestamp @ hexString randomBytes)) = 32"
  shows "\<exists>newId s' interaction.
           addInteraction sha256 timestamp randomBytes customerId payload s = (Ok newId, s')
           \<and> newId = generateUUID sha256 timestamp randomBytes
           \<and> interaction =
               \<lparr>i_id = newId, i_date = ip_date payload,
                i_interaction_type = ip_interaction_type payload,
                i_description = ip_description payload, i_status = ip_status payload,
                i_comments = ip_comments payload\<rparr>
           \<and> getCustomerInteractions s' customerId
               = getCustomerInteractions s customerId @ [interaction]
           \<and> interaction \<in> set (getCustomerInteractions s' customerId)
           \<and> getInteraction s' newId = Ok interaction"
proof -
  from assms(3) obtain v where v: "store_get customerId (customerStorage s) = Some v"
    by (auto simp: containsKey_get)
  with assms(1) have idv: "c_id v = customerId" by (rule reachable_stored_id)
  have valid: "isValidUUID (generateUUID sha256 timestamp randomBytes)"
    using assms(5) by (rule generateUUID_valid)
  show ?thesis
    using assms(2,4) v idv valid
    by (simp add: addInteraction_def getCustomerInteractions_def getInteraction_def Let_def
        get_insert_same)
qed

theorem addInteraction_recorded_witness:
  "reachable exampleDigest oneCustomer \<and> isValidUUID acmeId
   \<and> store_containsKey acmeId (customerStorage oneCustomer)
   \<and> isValidPayload (keys_InteractionPayload firstCall)
   \<and> length (exampleDigest (laterTime @ hexString exampleBytes)) = 32
   \<and> addInteraction exampleDigest laterTime exampleBytes acmeId firstCall oneCustomer
       = (Ok callId, oneInteraction)
   \<and> getCustomerInteractions oneInteraction acmeId = [callRecord]
   \<and> getInteraction oneInteraction callId = Ok callRecord
   \<and> (\<exists>newId s' interaction.
         addInteraction exampleDigest laterTime exampleBytes acmeId firstCall oneCustomer
           = (Ok newId, s')
         \<and> interaction \<in> set (getCustomerInteractions s' acmeId)
         \<and> getInteraction s' newId = Ok interaction)"
proof -
  have a: "store_containsKey acmeId (customerStorage oneCustomer)"
    by (simp add: oneCustomer_eq store_containsKey_def)
  have p: "isValidPayload (keys_InteractionPayload firstCall)" by simp
  have d: "length (exampleDigest (laterTime @ hexString exampleBytes)) = 32"
    by (simp add: exampleDigest_def)
  have e: "addInteraction exampleDigest laterTime exampleBytes acmeId firstCall oneCustomer
       = (Ok callId, oneInteraction)"
    by (simp add: oneInteraction_eq oneCustomer_eq addInteraction_def Let_def later_uuid
        acmeId_valid firstCall_def callRecord_def acmeCustomer_def store_insert_def
        store_get_def)
  have f: "getCustomerInteractions oneInteraction acmeId = [callRecord]"
    by (simp add: getCustomerInteractions_def oneInteraction_eq acmeId_valid store_get_def)
  have g: "getInteraction oneInteraction callId = Ok callRecord"
    by (simp add: getInteraction_def oneInteraction_eq callId_valid store_get_def)
  from addInteraction_recorded [OF reachable_oneCustomer acmeId_valid a p d]
  have "\<exists>newId s' interaction.
         addInteraction exampleDigest laterTime exampleBytes acmeId firstCall oneCustomer
           = (Ok newId, s')
         \<and> interaction \<in> set (getCustomerInteractions s' acmeId)
         \<and> getInteraction s' newId = Ok interaction"
    by blast
  with reachable_oneCustomer acmeId_valid a p d e f g show ?thesis by blast
qed

section \<open>Standalone records and embedded copies\<close>

text \<open>
  C6. For every interaction record whose identifier is a key of the interaction store,
  \<open>updateInteraction\<close> succeeds and stores the record under that key; the customer
  store and the purchase store are unchanged, so every customer and every list of embedded
  interactions reads as before. \<open>updatePurchase\<close> leaves the customer store unchanged
  in the same way.
\<close>

theorem updateInteraction_frame:
  "(store_containsKey (i_id payload) (interactionStorage s) \<longrightarrow>
      (\<exists>s'. updateInteraction payload s = (Ok payload, s')
         \<and> store_get (i_id payload) (interactionStorage s') = Some payload
         \<and> customerStorage s' = customerStorage s
         \<and> purchaseStorage s' = purchaseStorage s
         \<and> getCustomers s' = getCustomers s
         \<and> (\<forall>customerId.
               getCustomerInteractions s' customerId = getCustomerInteractions s customerId)))
   \<and> (store_containsKey (p_id purchase) (purchaseStorage s) \<longrightarrow>
      (\<exists>s'. updatePurchase purchase s = (Ok purchase, s')
         \<and> store_get (p_id purchase) (purchaseStorage s') = Some purchase
         \<and> customerStorage s' = customerStorage s
         \<and> (\<forall>customerId.
               getCustomerPurchases s' customerId = getCustomerPurchases s customerId)))"
  by (simp add: updateInteraction_def updatePurchase_def get_insert_same getCustomers_def
      getCustomerInteractions_def getCustomerPurchases_def)

theorem updateInteraction_frame_witness:
  "store_containsKey (i_id callClosed) (interactionStorage oneInteraction)
   \<and> i_status callRecord = ''Open'' \<and> i_status callClosed = ''closed''
   \<and> getCustomerInteractions oneInteraction acmeId = [callRecord]
   \<and> (\<exists>s'. updateInteraction callClosed oneInteraction = (Ok callClosed, s')
          \<and> getInteraction s' callId = Ok callClosed
          \<and> customerStorage s' = customerStorage oneInteraction
          \<and> getCustomerInteractions s' acmeId = [callRecord])"
proof -
  have a: "store_containsKey (i_id callClosed) (interactionStorage oneInteraction)"
    by (simp add: oneInteraction_eq store_containsKey_def callClosed_def callRecord_def)
  have b: "i_status callRecord = ''Open''" "i_status callClosed = ''closed''"
    "i_id callClosed = callId"
    by (simp_all add: callClosed_def callRecord_def)
  have f: "getCustomerInteractions oneInteraction acmeId = [callRecord]"
    by (simp add: getCustomerInteractions_def oneInteraction_eq acmeId_valid store_get_def)
  from a updateInteraction_frame [of callClosed oneInteraction]
  obtain s' where s': "updateInteraction callClosed oneInteraction = (Ok callClosed, s')"
    "store_get (i_id callClosed) (interactionStorage s') = Some callClosed"
    "customerStorage s' = customerStorage oneInteraction"
    "getCustomerInteractions s' acmeId = getCustomerInteractions oneInteraction acmeId"
    by blast
  from s'(2) have "getInteraction s' callId = Ok callClosed"
    by (simp add: getInteraction_def callId_valid b)
  with a b f s' show ?thesis by simp
qed

text \<open>
  C7. For every input string, the two queries that list by customer return a list and no
  error: the empty list when the string has not the identifier format or is not a key of
  the customer store, and otherwise the embedded list of the customer stored under it.
\<close>

theorem list_by_customer:
  "(\<not> isValidUUID customerId \<or> store_get customerId (customerStorage s) = None \<longrightarrow>
      getCustomerInteractions s customerId = [] \<and> getCustomerPurchases s customerId = [])
   \<and> (\<forall>customer.
        isValidUUID customerId \<and> store_get customerId (customerStorage s) = Some customer \<longrightarrow>
          getCustomerInteractions s customerId = c_interactions customer
          \<and> getCustomerPurchases s customerId = c_purchases customer)"
  by (auto simp: getCustomerInteractions_def getCustomerPurchases_def)

theorem list_by_customer_witness:
  "\<not> isValidUUID ''abc''
   \<and> getCustomerInteractions oneInteraction ''abc'' = []
   \<and> getCustomerPurchases oneInteraction ''abc'' = []
   \<and> getCustomer oneInteraction ''abc'' = Err (InvalidPayload ''Invalid UUID'')
   \<and> isValidUUID callId \<and> store_get callId (customerStorage oneInteraction) = None
   \<and> getCustomerInteractions oneInteraction callId = []
   \<and> getCustomerPurchases oneInteraction callId = []
   \<and> isValidUUID acmeId
   \<and> store_get acmeId (customerStorage oneInteraction)
       = Some (acmeCustomer\<lparr>c_interactions := [callRecord]\<rparr>)
   \<and> getCustomerInteractions oneInteraction acmeId = [callRecord]
   \<and> getCustomerPurchases oneInteraction acmeId = []"
proof -
  have a: "\<not> isValidUUID ''abc''"
    by (simp add: isValidUUID_def numeral_eq_Suc isHexDigit_def)
  have b: "store_get callId (customerStorage oneInteraction) = None"
    using acmeId_neq_callId by (auto simp: oneInteraction_eq store_get_def)
  have c: "store_get acmeId (customerStorage oneInteraction)
       = Some (acmeCustomer\<lparr>c_interactions := [callRecord]\<rparr>)"
    by (simp add: oneInteraction_eq store_get_def)
  have d: "getCustomer oneInteraction ''abc'' = Err (InvalidPayload ''Invalid UUID'')"
    using a by (simp add: getCustomer_def)
  have e: "c_purchases (acmeCustomer\<lparr>c_interactions := [callRecord]\<rparr>) = []"
    by (simp add: acmeCustomer_def)
  from a b c d e acmeId_valid callId_valid
    list_by_customer [of "''abc''" oneInteraction]
    list_by_customer [of callId oneInteraction]
    list_by_customer [of acmeId oneInteraction]
  show ?thesis by simp
qed

section \<open>Filters\<close>

lemma caseTable_keys: "distinct (map fst caseTable)"
  by (simp add: caseTable_def)

lemma caseTable_values: "distinct (map snd caseTable)"
  by (simp add: caseTable_def)

lemma caseTable_disjoint: "(c, d) \<in> set caseTable \<Longrightarrow> map_of caseTable d = None"
  unfolding caseTable_def by (simp, elim disjE; simp)

lemma caseTable_ascii:
  "(c, d) \<in> set caseTable \<Longrightarrow> (of_char c :: nat) < 0x80 \<and> (of_char d :: nat) < 0x80"
  unfolding caseTable_def by (simp, elim disjE; simp)

lemma caseTable_inj:
  assumes "(c, x) \<in> set caseTable" and "(d, x) \<in> set caseTable"
  shows "c = d"
proof -
  from caseTable_values have "inj_on snd (set caseTable)"
    by (simp add: distinct_map)
  from inj_onD [OF this _ assms] show ?thesis by simp
qed

lemma sameLetter_iff: "sameLetter c d \<longleftrightarrow> asciiLowerChar c = asciiLowerChar d"
proof
  assume "sameLetter c d"
  then consider "c = d" | "(c, d) \<in> set caseTable" | "(d, c) \<in> set caseTable"
    by (auto simp: sameLetter_def)
  then show "asciiLowerChar c = asciiLowerChar d"
  proof cases
    case 1
    then show ?thesis by simp
  next
    case 2
    then show ?thesis
      using caseTable_disjoint [OF 2] map_of_is_SomeI [OF caseTable_keys 2]
      by (simp add: asciiLowerChar_def)
  next
    case 3
    then show ?thesis
      using caseTable_disjoint [OF 3] map_of_is_SomeI [OF caseTable_keys 3]
      by (simp add: asciiLowerChar_def)
  qed
next
  assume eq: "asciiLowerChar c = asciiLowerChar d"
  show "sameLetter c d"
  proof (cases "map_of caseTable c")
    case None
    note c = this
    show ?thesis
    proof (cases "map_of caseTable d")
      case None
      with c eq show ?thesis by (simp add: asciiLowerChar_def sameLetter_def)
    next
      case (Some d')
      with c eq have "(d, c) \<in> set caseTable"
        by (auto simp: asciiLowerChar_def dest: map_of_SomeD)
      then show ?thesis by (simp add: sameLetter_def)
    qed
  next
    case (Some c')
    note c = this
    show ?thesis
    proof (cases "map_of caseTable d")
      case None
      with c eq have "(c, d) \<in> set caseTable"
        by (auto simp: asciiLowerChar_def dest: map_of_SomeD)
      then show ?thesis by (simp add: sameLetter_def)
    next
      case (Some d')
      with c eq have "(c, c') \<in> set caseTable" "(d, c') \<in> set caseTable"
        by (auto simp: asciiLowerChar_def dest: map_of_SomeD)
      then have "c = d" by (rule caseTable_inj)
      then show ?thesis by (simp add: sameLetter_def)
    qed
  qed
qed

lemma ascii_case_eq_iff: "ascii_case_eq a b \<longleftrightarrow> asciiLower a = asciiLower b"
proof -
  have "asciiLower a = asciiLower b
      \<longleftrightarrow> list_all2 (=) (map asciiLowerChar a) (map asciiLowerChar b)"
    by (simp add: asciiLower_def list.rel_eq)
  also have "\<dots> \<longleftrightarrow> list_all2 (\<lambda>c d. asciiLowerChar c = asciiLowerChar d) a b"
    by (simp add: list.rel_map)
  finally show ?thesis
    by (simp add: ascii_case_eq_def sameLetter_iff [abs_def])
qed

subsection \<open>The example conversion folds ASCII case\<close>

lemma asciiLowerChar_cases:
  "asciiLowerChar c = c \<or> (c, asciiLowerChar c) \<in> set caseTable"
  by (cases "map_of caseTable c") (auto simp: asciiLowerChar_def dest: map_of_SomeD)

lemma asciiLowerChar_high:
  assumes "0x80 \<le> (of_char c :: nat)"
  shows "asciiLowerChar c = c"
  using asciiLowerChar_cases [of c] caseTable_ascii [of c "asciiLowerChar c"] assms by auto

lemma asciiLowerChar_idem: "asciiLowerChar (asciiLowerChar c) = asciiLowerChar c"
proof (cases "asciiLowerChar c = c")
  case True
  then show ?thesis by simp
next
  case False
  with asciiLowerChar_cases [of c] have "(c, asciiLowerChar c) \<in> set caseTable" by simp
  then have "map_of caseTable (asciiLowerChar c) = None" by (rule caseTable_disjoint)
  then show ?thesis by (simp add: asciiLowerChar_def [of "asciiLowerChar c"])
qed

lemma asciiLowerChar_lead: "asciiLowerChar c = CHR 0xC3 \<longleftrightarrow> c = CHR 0xC3"
proof
  assume h: "asciiLowerChar c = CHR 0xC3"
  show "c = CHR 0xC3"
  proof (rule ccontr)
    assume "c \<noteq> CHR 0xC3"
    with h asciiLowerChar_cases [of c] have "(c, CHR 0xC3) \<in> set caseTable" by auto
    from caseTable_ascii [OF this] show False by simp
  qed
next
  assume "c = CHR 0xC3"
  then show "asciiLowerChar c = CHR 0xC3" by (simp add: asciiLowerChar_high)
qed

lemma isUpperTail_lower: "isUpperTail (asciiLowerChar d) \<longleftrightarrow> isUpperTail d"
proof (cases "asciiLowerChar d = d")
  case True
  then show ?thesis by simp
next
  case False
  with asciiLowerChar_cases [of d] have "(d, asciiLowerChar d) \<in> set caseTable" by simp
  from caseTable_ascii [OF this] show ?thesis by (simp add: isUpperTail_def)
qed

lemma utf8Lower_asciiLower: "utf8Lower (asciiLower s) = utf8Lower s"
proof (induction s rule: utf8Lower.induct)
  case 1
  show ?case by (simp add: asciiLower_def)
next
  case (2 c)
  show ?case by (simp add: asciiLower_def asciiLowerChar_idem)
next
  case (3 c d s)
  have cons: "asciiLower (x # xs) = asciiLowerChar x # asciiLower xs" for x xs
    by (simp add: asciiLower_def)
  show ?case
  proof (cases "c = CHR 0xC3 \<and> isUpperTail d")
    case True
    then have same: "asciiLowerChar c = c" "asciiLowerChar d = d"
      by (simp_all add: asciiLowerChar_high isUpperTail_def)
    from True 3(1) have ih: "utf8Lower (asciiLower s) = utf8Lower s" by simp
    from True have cond: "(c = CHR 0xC3 \<and> isUpperTail d) = True" by simp
    show ?thesis
      by (simp only: cons same utf8Lower.simps cond if_True ih)
  next
    case False
    then have a: "(c = CHR 0xC3 \<and> isUpperTail d) = False" by simp
    from False have b: "(asciiLowerChar c = CHR 0xC3 \<and> isUpperTail (asciiLowerChar d)) = False"
      by (simp add: asciiLowerChar_lead isUpperTail_lower)
    from False 3(2) have ih: "utf8Lower (asciiLowerChar d # asciiLower s) = utf8Lower (d # s)"
      by (simp add: cons)
    show ?thesis
      by (simp only: cons utf8Lower.simps a b if_False ih asciiLowerChar_idem)
  qed
qed

lemma foldsAsciiCase_utf8Lower: "foldsAsciiCase utf8Lower"
  unfolding foldsAsciiCase_def
proof (intro allI impI)
  fix a b
  assume "ascii_case_eq a b"
  then have "asciiLower a = asciiLower b" by (simp add: ascii_case_eq_iff)
  then have "utf8Lower (asciiLower a) = utf8Lower (asciiLower b)" by simp
  then show "utf8Lower a = utf8Lower b" by (simp add: utf8Lower_asciiLower)
qed

lemma utf8Lower_examples:
  "utf8Lower ecoleUpper = ecoleLower" "utf8Lower ecoleLower = ecoleLower"
  "utf8Lower ''Open'' = ''open''" "utf8Lower ''OPEN'' = ''open''"
  "utf8Lower ''opened'' = ''opened''"
  "utf8Lower ''3 Jan 2024'' = ''3 jan 2024''" "utf8Lower ''3 JAN 2024'' = ''3 jan 2024''"
  by code_simp+

lemma schoolState_eq:
  "schoolState =
     \<lparr>customerStorage = [(acmeId, acmeCustomer\<lparr>c_interactions := [schoolRecord]\<rparr>)],
      interactionStorage = [(callId, schoolRecord)], purchaseStorage = []\<rparr>"
  by (simp add: schoolState_def oneCustomer_eq addInteraction_def Let_def later_uuid
      acmeId_valid schoolVisit_def schoolRecord_def acmeCustomer_def store_insert_def
      store_get_def)

lemma reachable_schoolState: "reachable exampleDigest schoolState"
  unfolding schoolState_def by (intro reachable_step reachable_oneCustomer)

text \<open>
  C8. In every state and for every lower-case conversion, \<open>filterByStatus\<close> returns
  exactly the records of the interaction store whose status has the same lower-case form
  as the given string. With a conversion that folds ASCII case, as the one of the runtime
  does, two strings that are equal up to ASCII case give the same list, and every record
  whose status equals the given string up to ASCII case is in it.
  \<open>getPurchasesByDate\<close> does the same over the purchase store and the date of a
  purchase. In a reachable state the records of a store are those that \<^verbatim>\<open>get\<close> finds
  under some key.
\<close>

theorem filter_case_insensitive:
  "set (filterByStatus toLowerCase s a)
     = {i \<in> set (store_values (interactionStorage s)).
          toLowerCase (i_status i) = toLowerCase a}
   \<and> set (getPurchasesByDate toLowerCase s a)
     = {p \<in> set (store_values (purchaseStorage s)). toLowerCase (p_date p) = toLowerCase a}
   \<and> (foldsAsciiCase toLowerCase \<longrightarrow>
        (ascii_case_eq a b \<longrightarrow>
           filterByStatus toLowerCase s a = filterByStatus toLowerCase s b
           \<and> getPurchasesByDate toLowerCase s a = getPurchasesByDate toLowerCase s b)
        \<and> {i \<in> set (store_values (interactionStorage s)). ascii_case_eq (i_status i) a}
              \<subseteq> set (filterByStatus toLowerCase s a)
        \<and> {p \<in> set (store_values (purchaseStorage s)). ascii_case_eq (p_date p) a}
              \<subseteq> set (getPurchasesByDate toLowerCase s a))
   \<and> (reachable sha256 s \<longrightarrow>
        set (store_values (interactionStorage s))
          = {v. \<exists>k. store_get k (interactionStorage s) = Some v}
        \<and> set (store_values (purchaseStorage s))
          = {v. \<exists>k. store_get k (purchaseStorage s) = Some v})"
proof (intro conjI impI)
  show "set (filterByStatus toLowerCase s a)
      = {i \<in> set (store_values (interactionStorage s)).
           toLowerCase (i_status i) = toLowerCase a}"
    by (simp add: filterByStatus_def)
  show "set (getPurchasesByDate toLowerCase s a)
      = {p \<in> set (store_values (purchaseStorage s)). toLowerCase (p_date p) = toLowerCase a}"
    by (simp add: getPurchasesByDate_def)
next
  assume "foldsAsciiCase toLowerCase" and "ascii_case_eq a b"
  then have low: "toLowerCase a = toLowerCase b"
    by (simp add: foldsAsciiCase_def)
  then show "filterByStatus toLowerCase s a = filterByStatus toLowerCase s b"
    by (simp add: filterByStatus_def)
  from low show "getPurchasesByDate toLowerCase s a = getPurchasesByDate toLowerCase s b"
    by (simp add: getPurchasesByDate_def)
next
  assume f: "foldsAsciiCase toLowerCase"
  then show "{i \<in> set (store_values (interactionStorage s)). ascii_case_eq (i_status i) a}
      \<subseteq> set (filterByStatus toLowerCase s a)"
    by (auto simp: filterByStatus_def foldsAsciiCase_def)
  from f show "{p \<in> set (store_values (purchaseStorage s)). ascii_case_eq (p_date p) a}
      \<subseteq> set (getPurchasesByDate toLowerCase s a)"
    by (auto simp: getPurchasesByDate_def foldsAsciiCase_def)
next
  assume "reachable sha256 s"
  then have d: "keys_distinct s" by (rule reachable_keys_distinct)
  then show "set (store_values (interactionStorage s))
      = {v. \<exists>k. store_get k (interactionStorage s) = Some v}"
    by (simp add: keys_distinct_def values_ran)
  from d show "set (store_values (purchaseStorage s))
      = {v. \<exists>k. store_get k (purchaseStorage s) = Some v}"
    by (simp add: keys_distinct_def values_ran)
qed

theorem filter_case_insensitive_witness:
  "foldsAsciiCase utf8Lower
   \<and> ascii_case_eq ''OPEN'' ''open'' \<and> \<not> ascii_case_eq ''OPEN'' ''opened''
   \<and> i_status callRecord = ''Open''
   \<and> filterByStatus utf8Lower oneInteraction ''OPEN'' = [callRecord]
   \<and> filterByStatus utf8Lower oneInteraction ''open'' = [callRecord]
   \<and> filterByStatus utf8Lower oneInteraction ''opened'' = []
   \<and> ascii_case_eq ''3 JAN 2024'' ''3 jan 2024''
   \<and> p_date orderRecord = ''3 Jan 2024''
   \<and> getPurchasesByDate utf8Lower onePurchase ''3 JAN 2024'' = [orderRecord]
   \<and> getPurchasesByDate utf8Lower onePurchase ''3 jan 2024'' = [orderRecord]
   \<and> i_status schoolRecord = ecoleUpper \<and> \<not> ascii_case_eq ecoleUpper ecoleLower
   \<and> utf8Lower ecoleUpper = utf8Lower ecoleLower
   \<and> schoolRecord \<in> set (filterByStatus utf8Lower schoolState ecoleLower)
   \<and> reachable exampleDigest oneInteraction
   \<and> set (store_values (interactionStorage oneInteraction))
       = {v. \<exists>k. store_get k (interactionStorage oneInteraction) = Some v}"
proof -
  have a: "ascii_case_eq ''OPEN'' ''open''" "ascii_case_eq ''3 JAN 2024'' ''3 jan 2024''"
    "\<not> ascii_case_eq ''OPEN'' ''opened''" "\<not> ascii_case_eq ecoleUpper ecoleLower"
    by (simp_all add: ascii_case_eq_def sameLetter_def caseTable_def ecoleUpper_def
        ecoleLower_def)
  have b: "i_status callRecord = ''Open''" "p_date orderRecord = ''3 Jan 2024''"
    "i_status schoolRecord = ecoleUpper"
    by (simp_all add: callRecord_def orderRecord_def schoolRecord_def)
  have c: "filterByStatus utf8Lower oneInteraction ''OPEN'' = [callRecord]"
    "filterByStatus utf8Lower oneInteraction ''opened'' = []"
    by (simp_all add: filterByStatus_def oneInteraction_eq store_values_def b
        utf8Lower_examples del: utf8Lower.simps)
  have d: "getPurchasesByDate utf8Lower onePurchase ''3 JAN 2024'' = [orderRecord]"
    by (simp add: getPurchasesByDate_def onePurchase_eq store_values_def b utf8Lower_examples
        del: utf8Lower.simps)
  from filter_case_insensitive [of utf8Lower oneInteraction "''OPEN''" "''open''" exampleDigest]
    foldsAsciiCase_utf8Lower a(1)
  have "filterByStatus utf8Lower oneInteraction ''OPEN''
      = filterByStatus utf8Lower oneInteraction ''open''"
    by blast
  from this [symmetric] c(1)
  have e: "filterByStatus utf8Lower oneInteraction ''open'' = [callRecord]" by (rule trans)
  from filter_case_insensitive [of utf8Lower onePurchase "''3 JAN 2024''" "''3 jan 2024''"
      exampleDigest]
    foldsAsciiCase_utf8Lower a(2)
  have "getPurchasesByDate utf8Lower onePurchase ''3 JAN 2024''
      = getPurchasesByDate utf8Lower onePurchase ''3 jan 2024''"
    by blast
  from this [symmetric] d
  have f: "getPurchasesByDate utf8Lower onePurchase ''3 jan 2024'' = [orderRecord]"
    by (rule trans)
  have g: "utf8Lower ecoleUpper = utf8Lower ecoleLower"
    by (simp add: utf8Lower_examples)
  have "schoolRecord \<in> {i \<in> set (store_values (interactionStorage schoolState)).
      utf8Lower (i_status i) = utf8Lower ecoleLower}"
    by (simp add: schoolState_eq store_values_def b g del: utf8Lower.simps)
  with filter_case_insensitive [of utf8Lower schoolState ecoleLower ecoleLower exampleDigest]
  have h: "schoolRecord \<in> set (filterByStatus utf8Lower schoolState ecoleLower)" by blast
  from filter_case_insensitive [of utf8Lower oneInteraction "''OPEN''" "''open''" exampleDigest]
    reachable_oneInteraction
  have i: "set (store_values (interactionStorage oneInteraction))
       = {v. \<exists>k. store_get k (interactionStorage oneInteraction) = Some v}"
    by blast
  from foldsAsciiCase_utf8Lower reachable_oneInteraction a b c d e f g h i
  show ?thesis by blast
qed

section \<open>Keys and identifiers\<close>

lemma ids_match_get:
  assumes "ids_match s"
  shows "(\<forall>k v. store_get k (customerStorage s) = Some v \<longrightarrow> c_id v = k)
     \<and> (\<forall>k v. store_get k (interactionStorage s) = Some v \<longrightarrow> i_id v = k)
     \<and> (\<forall>k v. store_get k (purchaseStorage s) = Some v \<longrightarrow> p_id v = k)"
  using assms by (auto simp: ids_match_def list_all_iff dest!: get_entry)

text \<open>
  C10. In every state reachable from the empty stores through the update operations, every
  key of each of the three stores is the identifier of the record stored under it; each
  update operation preserves this property, from whatever state that has it.
\<close>

theorem keys_equal_ids:
  "(reachable sha256 s \<longrightarrow>
      ids_match s
      \<and> (\<forall>k v. store_get k (customerStorage s) = Some v \<longrightarrow> c_id v = k)
      \<and> (\<forall>k v. store_get k (interactionStorage s) = Some v \<longrightarrow> i_id v = k)
      \<and> (\<forall>k v. store_get k (purchaseStorage s) = Some v \<longrightarrow> p_id v = k))
   \<and> (ids_match t \<longrightarrow> ids_match (exec sha256 c t))"
  using ids_match_get [of s] by (simp add: reachable_ids_match exec_ids_match)

theorem keys_equal_ids_witness:
  "reachable exampleDigest oneInteraction
   \<and> ids_match oneInteraction
   \<and> store_get acmeId (customerStorage oneInteraction)
       = Some (acmeCustomer\<lparr>c_interactions := [callRecord]\<rparr>)
   \<and> c_id (acmeCustomer\<lparr>c_interactions := [callRecord]\<rparr>) = acmeId
   \<and> store_get callId (interactionStorage oneInteraction) = Some callRecord
   \<and> i_id callRecord = callId
   \<and> ids_match (exec exampleDigest (UpdateInteraction callClosed) oneInteraction)
   \<and> ids_match (exec exampleDigest (DeleteCustomer acmeId) oneInteraction)"
proof -
  have a: "store_get acmeId (customerStorage oneInteraction)
       = Some (acmeCustomer\<lparr>c_interactions := [callRecord]\<rparr>)"
    "store_get callId (interactionStorage oneInteraction) = Some callRecord"
    by (simp_all add: oneInteraction_eq store_get_def)
  from reachable_oneInteraction
    keys_equal_ids [of exampleDigest oneInteraction oneInteraction "UpdateInteraction callClosed"]
    keys_equal_ids [of exampleDigest oneInteraction oneInteraction "DeleteCustomer acmeId"]
  have b: "ids_match oneInteraction"
    "\<forall>k v. store_get k (customerStorage oneInteraction) = Some v \<longrightarrow> c_id v = k"
    "\<forall>k v. store_get k (interactionStorage oneInteraction) = Some v \<longrightarrow> i_id v = k"
    "ids_match (exec exampleDigest (UpdateInteraction callClosed) oneInteraction)"
    "ids_match (exec exampleDigest (DeleteCustomer acmeId) oneInteraction)"
    by blast+
  from a b(2,3) have c: "c_id (acmeCustomer\<lparr>c_interactions := [callRecord]\<rparr>) = acmeId"
    "i_id callRecord = callId"
    by blast+
  from reachable_oneInteraction a b c show ?thesis by simp
qed

end
